theory Spec2Isabelle
  imports Main "HOL-Library.Word"
begin

section \<open>Data model of arch/arm64/hotplug/autosmp.c\<close>

text \<open>
  C's \<open>unsigned int\<close> and \<open>int\<close> are both 32-bit words. Arithmetic wraps; an
  unsigned comparison is the order of the word type, a signed comparison reads both
  sides with \<open>sint\<close>. Where the C code compares an \<open>unsigned int\<close> with an
  \<open>int\<close>, the \<open>int\<close> is converted to unsigned, so the comparison is the unsigned one.
\<close>

type_synonym u32 = "32 word"
type_synonym s32 = "32 word"

definition UINT_MAX :: u32 where
  "UINT_MAX = 4294967295"

definition HOTPLUG_ENABLED :: s32 where
  "HOTPLUG_ENABLED = 0"

definition HOTPLUG_INIT_DELAY :: s32 where
  "HOTPLUG_INIT_DELAY = 30000"

definition EINVAL :: int where
  "EINVAL = 22"

definition EFAULT :: int where
  "EFAULT = 14"

record asmp_tunables =
  delay :: s32
  scroff_single_core :: s32
  max_cpus :: s32
  min_cpus :: s32
  cpufreq_up :: s32
  cpufreq_down :: s32
  cycle_up :: s32
  cycle_down :: s32

text \<open>The static initialiser of \<open>tunables\<close>; \<open>CONFIG_NR_CPUS\<close> is a build parameter.\<close>

definition tunables_init :: "s32 \<Rightarrow> asmp_tunables" where
  "tunables_init CONFIG_NR_CPUS =
     \<lparr>delay = 50, scroff_single_core = 1, max_cpus = CONFIG_NR_CPUS, min_cpus = 2,
      cpufreq_up = 60, cpufreq_down = 40, cycle_up = 2, cycle_down = 2\<rparr>"

text \<open>
  A cpumask is a bitmap indexed by cpu id; its length is \<open>nr_cpumask_bits\<close>.
  Bit \<open>cpu\<close> of \<open>cpu_online_mask\<close> says that the cpu is online.
\<close>

type_synonym cpumask = "bool list"

text \<open>The two hotplug requests the driver sends to the kernel.\<close>

datatype cmd = CpuUp nat | CpuDown nat

text \<open>
  The collaborators the driver calls and whose code is not part of the file: the cpufreq
  queries, the outcome of a hotplug request, of \<open>alloc_workqueue\<close>, of
  \<open>state_register_client\<close> (its return code, 0 on success), of
  \<open>kobject_create_and_add\<close> and of \<open>sysfs_create_group\<close> (its return code).
\<close>

record hw =
  cpufreq_quick_get_max :: "nat \<Rightarrow> u32"
  cpufreq_quick_get :: "nat \<Rightarrow> u32"
  hotplug_ok :: "cmd \<Rightarrow> bool"
  alloc_workqueue_ok :: bool
  state_register_client :: int
  kobject_create_and_add_ok :: bool
  sysfs_create_group :: int

text \<open>
  The module's globals and the kernel state it reads: \<open>enabled\<close>, \<open>tunables\<close>,
  \<open>cycle\<close>, the online and present masks, whether \<open>asmp_wq\<close> holds a live
  workqueue, whether \<open>asmp_suspend_notif\<close> is registered, whether its
  \<open>notifier_call\<close> still points to \<open>state_notifier_callback\<close>, whether
  \<open>asmp_kobj\<close> holds a live kobject, and the delay (ms) of \<open>asmp_work\<close> while it
  is pending.
\<close>

record sys =
  enabled :: s32
  tunables :: asmp_tunables
  cycle :: u32
  cpu_online_mask :: cpumask
  cpu_present_mask :: cpumask
  asmp_wq :: bool
  notifier_registered :: bool
  notifier_call :: bool
  asmp_kobj :: bool
  asmp_work :: "s32 option"

text \<open>The state after module load: \<open>enabled = HOTPLUG_ENABLED\<close>, \<open>cycle = 0\<close>.\<close>

definition sys_init :: "s32 \<Rightarrow> cpumask \<Rightarrow> cpumask \<Rightarrow> sys" where
  "sys_init CONFIG_NR_CPUS online present =
     \<lparr>enabled = HOTPLUG_ENABLED, tunables = tunables_init CONFIG_NR_CPUS, cycle = 0,
      cpu_online_mask = online, cpu_present_mask = present,
      asmp_wq = False, notifier_registered = False, notifier_call = True,
      asmp_kobj = False, asmp_work = None\<rparr>"

section \<open>Kernel helpers used by the driver\<close>

text \<open>
  The cpumask helpers (linux/cpumask.h), the hotplug calls (linux/cpu.h) and the
  workqueue calls (linux/workqueue.h) are not part of the source file. The cpumask
  helpers follow the kernel's documentation of them.

  \<open>cpu_online(cpu)\<close>: the bit of the cpu in the online mask.
\<close>

definition cpu_online :: "cpumask \<Rightarrow> nat \<Rightarrow> bool" where
  "cpu_online m cpu = (cpu < length m \<and> m ! cpu)"

text \<open>\<open>num_online_cpus()\<close>: the weight of the online mask, as a 32-bit value.\<close>

definition num_online_cpus :: "cpumask \<Rightarrow> u32" where
  "num_online_cpus m = of_nat (length (filter (\<lambda>b. b) m))"

text \<open>\<open>for_each_cpu(cpu, mask)\<close> visits the set bits in ascending order.\<close>

definition for_each_cpu :: "cpumask \<Rightarrow> nat list" where
  "for_each_cpu m = filter (\<lambda>cpu. m ! cpu) [0..<length m]"

text \<open>
  \<open>cpumask_next_zero(n, mask)\<close>: "get the next unset cpu in a cpumask; n: the cpu
  prior to the place to search (ie. return will be > n)". It is the first cpu id
  strictly after \<open>n\<close> whose bit is clear, and \<open>nr_cpumask_bits\<close> when there is none.
\<close>

definition cpumask_next_zero :: "nat \<Rightarrow> cpumask \<Rightarrow> nat" where
  "cpumask_next_zero n m =
     (case List.find (\<lambda>cpu. \<not> m ! cpu) [Suc n..<length m] of
        Some cpu \<Rightarrow> cpu
      | None \<Rightarrow> length m)"

text \<open>
  Modelled from the spec: \<open>bring_online(core_id) -> success/failure\<close> and
  \<open>take_offline(core_id) -> success/failure\<close> (\<open>cpu_up\<close> and \<open>cpu_down\<close> are
  declared in linux/cpu.h). The request is recorded; when the topology accepts it the
  bit of the cpu changes (an id outside the mask changes nothing), otherwise the mask
  stays as it is. The driver never reads the return value.
\<close>

definition cpu_up :: "hw \<Rightarrow> nat \<Rightarrow> sys \<Rightarrow> sys \<times> cmd list" where
  "cpu_up h cpu s =
     (if hotplug_ok h (CpuUp cpu)
      then s\<lparr>cpu_online_mask := (cpu_online_mask s)[cpu := True]\<rparr>
      else s,
      [CpuUp cpu])"

definition cpu_down :: "hw \<Rightarrow> nat \<Rightarrow> sys \<Rightarrow> sys \<times> cmd list" where
  "cpu_down h cpu s =
     (if hotplug_ok h (CpuDown cpu)
      then s\<lparr>cpu_online_mask := (cpu_online_mask s)[cpu := False]\<rparr>
      else s,
      [CpuDown cpu])"

text \<open>
  Modelled from the spec: \<open>schedule(delay_ms, callback) -> cancelable_handle\<close> and
  \<open>cancel_and_wait(handle)\<close>. \<open>queue_delayed_work\<close> arms the work with the delay
  unless it is already pending; \<open>cancel_delayed_work_sync\<close> leaves it not pending;
  \<open>INIT_DELAYED_WORK\<close> initialises it as not pending.
\<close>

definition queue_delayed_work :: "s32 \<Rightarrow> sys \<Rightarrow> sys" where
  "queue_delayed_work d s =
     (case asmp_work s of None \<Rightarrow> s\<lparr>asmp_work := Some d\<rparr> | Some d' \<Rightarrow> s)"

definition cancel_delayed_work_sync :: "sys \<Rightarrow> sys" where
  "cancel_delayed_work_sync s = s\<lparr>asmp_work := None\<rparr>"

definition INIT_DELAYED_WORK :: "sys \<Rightarrow> sys" where
  "INIT_DELAYED_WORK s = s\<lparr>asmp_work := None\<rparr>"

section \<open>The decision cycle: asmp\_work\_fn\<close>

text \<open>The loop variables of the scan over the online cpus.\<close>

record scan_vars =
  slow_cpu :: nat
  slow_rate :: u32
  fast_rate :: u32

text \<open>The body of \<open>for_each_online_cpu(cpu) { if (cpu > 0) { ... } }\<close>.\<close>

definition scan_body :: "hw \<Rightarrow> nat \<Rightarrow> scan_vars \<Rightarrow> scan_vars" where
  "scan_body h cpu v =
     (if cpu > 0 then
        (let rate = cpufreq_quick_get h cpu in
         if rate \<le> slow_rate v then v\<lparr>slow_cpu := cpu, slow_rate := rate\<rparr>
         else if rate > fast_rate v then v\<lparr>fast_rate := rate\<rparr>
         else v)
      else v)"

text \<open>
  The scan: \<open>slow_cpu = 0\<close>, \<open>slow_rate = UINT_MAX\<close>,
  \<open>fast_rate = cpu0_rate = cpufreq_quick_get(0)\<close>, then the loop.
\<close>

definition scan :: "hw \<Rightarrow> cpumask \<Rightarrow> scan_vars" where
  "scan h m =
     fold (scan_body h) (for_each_cpu m)
       \<lparr>slow_cpu = 0, slow_rate = UINT_MAX, fast_rate = cpufreq_quick_get h 0\<rparr>"

text \<open>\<open>up_rate = tunables.cpufreq_up * max_rate / 100\<close>, in unsigned arithmetic.\<close>

definition up_rate :: "hw \<Rightarrow> asmp_tunables \<Rightarrow> u32" where
  "up_rate h t = (cpufreq_up t * cpufreq_quick_get_max h 0) div 100"

definition down_rate :: "hw \<Rightarrow> asmp_tunables \<Rightarrow> u32" where
  "down_rate h t = (cpufreq_down t * cpufreq_quick_get_max h 0) div 100"

text \<open>\<open>slow_rate\<close> after \<open>if (cpu0_rate < slow_rate) slow_rate = cpu0_rate;\<close>.\<close>

definition final_slow_rate :: "hw \<Rightarrow> cpumask \<Rightarrow> u32" where
  "final_slow_rate h m =
     (if cpufreq_quick_get h 0 < slow_rate (scan h m)
      then cpufreq_quick_get h 0 else slow_rate (scan h m))"

text \<open>
  One run of \<open>asmp_work_fn\<close>: the new state and the hotplug requests it sent.
  \<open>num_cpus\<close> is an \<open>int\<close>, so its comparisons with \<open>max_cpus\<close> and
  \<open>min_cpus\<close> are signed; \<open>cycle\<close> is unsigned, so its comparisons with
  \<open>cycle_up\<close> and \<open>cycle_down\<close> are unsigned.
\<close>

definition asmp_work_fn :: "hw \<Rightarrow> sys \<Rightarrow> sys \<times> cmd list" where
  "asmp_work_fn h s0 =
     (let s = s0\<lparr>cycle := cycle s0 + 1\<rparr>;
          t = tunables s;
          num_cpus = num_online_cpus (cpu_online_mask s);
          v = scan h (cpu_online_mask s);
          (s', cmds) =
            (if final_slow_rate h (cpu_online_mask s) > up_rate h t then
               (if sint num_cpus < sint (max_cpus t) \<and> cycle s \<ge> cycle_up t then
                  (let (s1, c) = cpu_up h (cpumask_next_zero 0 (cpu_online_mask s)) s
                   in (s1\<lparr>cycle := 0\<rparr>, c))
                else (s, []))
             else if slow_cpu v \<noteq> 0 \<and> fast_rate v < down_rate h t then
               (if sint num_cpus > sint (min_cpus t) \<and> cycle s \<ge> cycle_down t then
                  (let (s1, c) = cpu_down h (slow_cpu v) s
                   in (s1\<lparr>cycle := 0\<rparr>, c))
                else (s, []))
             else (s, []))
      in (queue_delayed_work (delay (tunables s')) s', cmds))"

section \<open>Suspend and resume\<close>

text \<open>The loop of \<open>asmp_suspend\<close> over the present cpus.\<close>

fun suspend_loop :: "hw \<Rightarrow> nat list \<Rightarrow> sys \<Rightarrow> sys \<times> cmd list" where
  "suspend_loop h [] s = (s, [])"
| "suspend_loop h (cpu # cpus) s =
     (if cpu > 0 \<and> cpu_online (cpu_online_mask s) cpu then
        (let (s1, c1) = cpu_down h cpu s;
             (s2, c2) = suspend_loop h cpus s1
         in (s2, c1 @ c2))
      else suspend_loop h cpus s)"

definition asmp_suspend :: "hw \<Rightarrow> sys \<Rightarrow> sys \<times> cmd list" where
  "asmp_suspend h s =
     (if enabled s = 0 then (s, [])
      else
        (let (s1, cs) =
               (if scroff_single_core (tunables s) \<noteq> 0
                then suspend_loop h (for_each_cpu (cpu_present_mask s)) s
                else (s, []))
         in (cancel_delayed_work_sync s1, cs)))"

text \<open>
  The loop of \<open>asmp_resume\<close>. \<open>num_cpus\<close> is read once before the loop and is an
  \<open>unsigned int\<close>: the test \<open>num_cpus >= tunables.max_cpus\<close> is unsigned.
\<close>

fun resume_loop :: "hw \<Rightarrow> u32 \<Rightarrow> nat list \<Rightarrow> sys \<Rightarrow> sys \<times> cmd list" where
  "resume_loop h num_cpus [] s = (s, [])"
| "resume_loop h num_cpus (cpu # cpus) s =
     (if num_cpus \<ge> max_cpus (tunables s) then (s, [])
      else if \<not> cpu_online (cpu_online_mask s) cpu then
        (let (s1, c1) = cpu_up h cpu s;
             (s2, c2) = resume_loop h num_cpus cpus s1
         in (s2, c1 @ c2))
      else resume_loop h num_cpus cpus s)"

definition asmp_resume :: "hw \<Rightarrow> sys \<Rightarrow> sys \<times> cmd list" where
  "asmp_resume h s =
     (if enabled s = 0 then (s, [])
      else
        (let (s1, cs) =
               (if scroff_single_core (tunables s) \<noteq> 0
                then resume_loop h (num_online_cpus (cpu_online_mask s))
                       (for_each_cpu (cpu_present_mask s)) s
                else (s, []))
         in (queue_delayed_work (delay (tunables s1)) s1, cs)))"

datatype state_event = STATE_NOTIFIER_ACTIVE | STATE_NOTIFIER_SUSPEND | STATE_NOTIFIER_OTHER

definition state_notifier_callback :: "hw \<Rightarrow> state_event \<Rightarrow> sys \<Rightarrow> sys \<times> cmd list" where
  "state_notifier_callback h event s =
     (if enabled s = 0 then (s, [])
      else (case event of
              STATE_NOTIFIER_ACTIVE \<Rightarrow> asmp_resume h s
            | STATE_NOTIFIER_SUSPEND \<Rightarrow> asmp_suspend h s
            | STATE_NOTIFIER_OTHER \<Rightarrow> (s, [])))"

section \<open>Start, stop and the enabled attribute\<close>

text \<open>\<open>asmp_hotplug_start\<close>: its return code and the new state.\<close>

definition asmp_hotplug_start :: "hw \<Rightarrow> sys \<Rightarrow> int \<times> sys" where
  "asmp_hotplug_start h s =
     (if \<not> alloc_workqueue_ok h then (- EFAULT, s\<lparr>asmp_wq := False\<rparr>)
      else
        (let s1 = s\<lparr>asmp_wq := True\<rparr>;
             ret = state_register_client h
         in if ret \<noteq> 0 then (ret, s1\<lparr>asmp_wq := False\<rparr>)
            else (ret, queue_delayed_work HOTPLUG_INIT_DELAY
                         (INIT_DELAYED_WORK (s1\<lparr>notifier_registered := True\<rparr>)))))"

text \<open>
  The loop of \<open>asmp_hotplug_stop\<close>: \<open>for_each_cpu_not(cpu, cpu_online_mask)\<close>
  walks the ids in ascending order and reads the mask as it goes. Before the loop the
  function cancels the work, unregisters the notifier, sets its \<open>notifier_call\<close> to
  \<open>NULL\<close> and destroys the workqueue.
\<close>

fun stop_loop :: "hw \<Rightarrow> nat list \<Rightarrow> sys \<Rightarrow> sys \<times> cmd list" where
  "stop_loop h [] s = (s, [])"
| "stop_loop h (cpu # cpus) s =
     (if cpu_online (cpu_online_mask s) cpu \<or> cpu = 0 then stop_loop h cpus s
      else
        (let (s1, c1) = cpu_up h cpu s;
             (s2, c2) = stop_loop h cpus s1
         in (s2, c1 @ c2)))"

definition asmp_hotplug_stop :: "hw \<Rightarrow> sys \<Rightarrow> sys \<times> cmd list" where
  "asmp_hotplug_stop h s =
     stop_loop h [0..<length (cpu_online_mask s)]
       ((cancel_delayed_work_sync s)
          \<lparr>notifier_registered := False, notifier_call := False, asmp_wq := False\<rparr>)"

text \<open>
  \<open>store_enabled\<close>. The first argument is what \<open>sscanf(buf, "%d", &val)\<close> found:
  \<open>None\<close> when it did not return 1, the scanned \<open>val\<close> otherwise. The result is the
  returned \<open>ssize_t\<close>, the new state and the hotplug requests sent.
\<close>

definition store_enabled :: "hw \<Rightarrow> s32 option \<Rightarrow> nat \<Rightarrow> sys \<Rightarrow> int \<times> sys \<times> cmd list" where
  "store_enabled h scanned count s =
     (case scanned of
        None \<Rightarrow> (- EINVAL, s, [])
      | Some val \<Rightarrow>
          if sint val < 0 \<or> sint val > 1 \<or> val = enabled s then (- EINVAL, s, [])
          else
            (let s1 = s\<lparr>enabled := val\<rparr>
             in if enabled s1 \<noteq> 0 then
                  (let (ret, s2) = asmp_hotplug_start h s1 in (int count, s2, []))
                else
                  (let (s2, cs) = asmp_hotplug_stop h s1 in (int count, s2, cs))))"

text \<open>
  \<open>asmp_probe\<close>: its return code and the new state. It starts the controller when
  \<open>enabled\<close> is set, and returns the error of a failed start after
  \<open>kobject_put(asmp_kobj)\<close>.
\<close>

definition asmp_probe :: "hw \<Rightarrow> sys \<Rightarrow> int \<times> sys" where
  "asmp_probe h s =
     (if \<not> kobject_create_and_add_ok h then (- EFAULT, s\<lparr>asmp_kobj := False\<rparr>)
      else
        (let s1 = s\<lparr>asmp_kobj := True\<rparr>;
             ret = sysfs_create_group h
         in if ret \<noteq> 0 then (ret, s1\<lparr>asmp_kobj := False\<rparr>)
            else if enabled s1 = 0 then (ret, s1)
            else
              (let (ret', s2) = asmp_hotplug_start h s1
               in if ret' \<noteq> 0 then (ret', s2\<lparr>asmp_kobj := False\<rparr>)
                  else (ret', s2))))"

section \<open>Concrete collaborators and states\<close>

text \<open>
  Collaborators that report \<open>max_rate\<close> for every cpu and the listed current rates
  (0 for an id past the list), accept or refuse every hotplug request, and let
  \<open>alloc_workqueue\<close>, \<open>state_register_client\<close>, \<open>kobject_create_and_add\<close> and
  \<open>sysfs_create_group\<close> succeed.
\<close>

definition example_hw :: "u32 \<Rightarrow> u32 list \<Rightarrow> bool \<Rightarrow> hw" where
  "example_hw max_rate rates ok =
     \<lparr>cpufreq_quick_get_max = (\<lambda>cpu. max_rate),
      cpufreq_quick_get = (\<lambda>cpu. if cpu < length rates then rates ! cpu else 0),
      hotplug_ok = (\<lambda>c. ok), alloc_workqueue_ok = True, state_register_client = 0,
      kobject_create_and_add_ok = True, sysfs_create_group = 0\<rparr>"

text \<open>A running controller: enabled, workqueue and notifier set up, no work pending.\<close>

definition example_sys :: "asmp_tunables \<Rightarrow> u32 \<Rightarrow> cpumask \<Rightarrow> cpumask \<Rightarrow> sys" where
  "example_sys t c online present =
     \<lparr>enabled = 1, tunables = t, cycle = c,
      cpu_online_mask = online, cpu_present_mask = present,
      asmp_wq = True, notifier_registered = True, notifier_call = True,
      asmp_kobj = True, asmp_work = None\<rparr>"

text \<open>
  Two of four cpus online at 95% and 96% of the maximum rate, default tunables with
  \<open>max_cpus = 4\<close>, \<open>cycle = 1\<close> before the cycle.
\<close>

definition busy_hw :: hw where
  "busy_hw = example_hw 1000 [950, 960] True"

definition busy_sys :: sys where
  "busy_sys = example_sys (tunables_init 4) 1
     [True, True, False, False] [True, True, True, True]"

text \<open>Three of four cpus online at 10%, 20% and 30% of the maximum rate.\<close>

definition idle_hw :: hw where
  "idle_hw = example_hw 1000 [100, 200, 300] True"

definition idle_sys :: sys where
  "idle_sys = example_sys (tunables_init 4) 1
     [True, True, True, False] [True, True, True, True]"

text \<open>
  Thresholds \<open>cpufreq_up = 10\<close> and \<open>cpufreq_down = 90\<close> (each within 1..100),
  \<open>min_cpus = 1\<close>, both online cpus at 50% of the maximum rate: once with two
  cpus and \<open>max_cpus = 2\<close>, once with four cpus and \<open>max_cpus = 4\<close>.
\<close>

definition mid_hw :: hw where
  "mid_hw = example_hw 1000 [500, 500] True"

definition capped_sys :: sys where
  "capped_sys =
     example_sys ((tunables_init 2)\<lparr>cpufreq_up := 10, cpufreq_down := 90, min_cpus := 1\<rparr>) 5
       [True, True] [True, True]"

definition roomy_sys :: sys where
  "roomy_sys =
     example_sys ((tunables_init 4)\<lparr>cpufreq_up := 10, cpufreq_down := 90, min_cpus := 1\<rparr>) 5
       [True, True, False, False] [True, True, True, True]"

text \<open>Cpu 0 at 10% and cpu 1 at 50% of the maximum rate, \<open>min_cpus = 1\<close>.\<close>

definition uneven_hw :: hw where
  "uneven_hw = example_hw 1000 [100, 500] True"

definition uneven_sys :: sys where
  "uneven_sys = example_sys ((tunables_init 2)\<lparr>min_cpus := 1\<rparr>) 1 [True, True] [True, True]"

text \<open>Cpus 1 and 2 tie at 30% of the maximum rate, cpu 0 runs at 90%.\<close>

definition tie_hw :: hw where
  "tie_hw = example_hw 1000 [900, 300, 300] True"

definition tie_sys :: sys where
  "tie_sys = example_sys (tunables_init 4) 1
     [True, True, True, False] [True, True, True, True]"

text \<open>
  After a suspend: only cpu 0 of four present cpus is online, \<open>max_cpus = 2\<close>,
  every hotplug request succeeds.
\<close>

definition suspended_hw :: hw where
  "suspended_hw = example_hw 1000 [900] True"

definition suspended_sys :: sys where
  "suspended_sys = example_sys ((tunables_init 4)\<lparr>max_cpus := 2\<rparr>) 0
     [True, False, False, False] [True, True, True, True]"

text \<open>
  All four cpus of the mask online and busy, with \<open>max_cpus = 8\<close> (the upper limit
  \<open>store_max_cpus\<close> accepts).
\<close>

definition full_hw :: hw where
  "full_hw = example_hw 1000 [950, 960, 970, 980] True"

definition full_sys :: sys where
  "full_sys = example_sys ((tunables_init 4)\<lparr>max_cpus := 8\<rparr>) 1
     [True, True, True, True] [True, True, True, True]"

text \<open>Cpu 0 offline, cpu 1 online, rates as in \<open>busy_hw\<close>.\<close>

definition headless_sys :: sys where
  "headless_sys = example_sys (tunables_init 4) 1
     [False, True, False, False] [True, True, True, True]"

text \<open>
  The state after load on a four-cpu system, and collaborators whose
  \<open>alloc_workqueue\<close> fails, or whose \<open>state_register_client\<close> returns -16.
\<close>

definition loaded_sys :: sys where
  "loaded_sys = sys_init 4 [True, True, False, False] [True, True, True, True]"

definition no_workqueue_hw :: hw where
  "no_workqueue_hw = busy_hw\<lparr>alloc_workqueue_ok := False\<rparr>"

definition no_notifier_hw :: hw where
  "no_notifier_hw = busy_hw\<lparr>state_register_client := - 16\<rparr>"

text \<open>
  Start after load, one decision cycle (run when its timer has fired, so the work is
  no longer pending), stop, start again: the state after the stop and after the second
  start.
\<close>

definition restart_stopped :: sys where
  "restart_stopped =
     (let s1 = fst (snd (store_enabled busy_hw (Some 1) 2 loaded_sys));
          s2 = fst (asmp_work_fn busy_hw (s1\<lparr>asmp_work := None\<rparr>))
      in fst (snd (store_enabled busy_hw (Some 0) 2 s2)))"

definition restart_started :: sys where
  "restart_started = fst (snd (store_enabled busy_hw (Some 1) 2 restart_stopped))"

section \<open>Facts about the kernel helpers\<close>

lemma le_UINT_MAX: "(x :: u32) \<le> UINT_MAX"
proof -
  have e: "UINT_MAX = (- 1 :: 32 word)" by (simp add: UINT_MAX_def)
  show ?thesis unfolding e by (rule word_n1_ge)
qed

lemma set_for_each_cpu: "set (for_each_cpu m) = {cpu. cpu_online m cpu}"
  by (auto simp: for_each_cpu_def cpu_online_def)

lemma sorted_for_each_cpu: "sorted (for_each_cpu m)"
  by (simp add: for_each_cpu_def sorted_wrt_filter)

lemma sint_num_online_cpus:
  "length m < 2 ^ 31 \<Longrightarrow> sint (num_online_cpus m) = int (length (filter (\<lambda>b. b) m))"
proof -
  assume a: "length m < 2 ^ 31"
  have "length (filter (\<lambda>b. b) m) \<le> length m" by simp
  with a have "length (filter (\<lambda>b. b) m) < 2 ^ 31" by (rule le_less_trans [rotated])
  then have "int (length (filter (\<lambda>b. b) m)) < int (2 ^ 31)" by (simp only: of_nat_less_iff)
  then have b: "int (length (filter (\<lambda>b. b) m)) < 2 ^ 31" by simp
  show ?thesis
    unfolding num_online_cpus_def
    using b by (simp add: signed_of_nat signed_take_bit_int_eq_self)
qed

lemma offline_exists:
  "length (filter (\<lambda>b. b) m) < length m \<Longrightarrow> False \<in> set m"
proof (rule ccontr)
  assume a: "length (filter (\<lambda>b. b) m) < length m" and nf: "False \<notin> set m"
  have "\<forall>x\<in>set m. x"
  proof
    fix x assume "x \<in> set m"
    with nf show x by (cases x) auto
  qed
  then have "filter (\<lambda>b. b) m = m" by (simp add: filter_True)
  with a show False by simp
qed

text \<open>
  \<open>cpumask_next_zero(0, mask)\<close> skips cpu 0: every id between cpu 0 and the result is
  online, and a result inside the mask is an offline cpu other than cpu 0.
\<close>

lemma next_zero_after:
  "(\<forall>c. 0 < c \<and> c < cpumask_next_zero 0 m \<longrightarrow> cpu_online m c) \<and>
   (cpumask_next_zero 0 m < length m \<longrightarrow>
      0 < cpumask_next_zero 0 m \<and> \<not> cpu_online m (cpumask_next_zero 0 m))"
proof (cases "List.find (\<lambda>cpu. \<not> m ! cpu) [Suc 0..<length m]")
  case None
  then have nz: "cpumask_next_zero 0 m = length m"
    by (simp add: cpumask_next_zero_def)
  from None have "\<forall>c. 0 < c \<and> c < length m \<longrightarrow> m ! c"
    by (auto simp: find_None_iff)
  with nz show ?thesis by (simp add: cpu_online_def)
next
  case (Some c)
  then have nz: "cpumask_next_zero 0 m = c"
    by (simp add: cpumask_next_zero_def)
  from Some obtain k where k: "k < length [Suc 0..<length m]"
      "\<not> m ! ([Suc 0..<length m] ! k)" "c = [Suc 0..<length m] ! k"
      "\<forall>j<k. m ! ([Suc 0..<length m] ! j)"
    by (auto simp: find_Some_iff)
  from k(1) have kl: "Suc k < length m" by simp
  with k have ck: "c = Suc k" and nc: "\<not> m ! c" by simp_all
  have low: "\<forall>c'. 0 < c' \<and> c' < c \<longrightarrow> cpu_online m c'"
  proof (intro allI impI)
    fix c' assume lt: "0 < c' \<and> c' < c"
    then obtain j where j: "c' = Suc j" by (cases c') auto
    with lt ck have jk: "j < k" by simp
    with kl have jl: "Suc j < length m" by simp
    with k(4) jk have "m ! (Suc j)" by auto
    with j jl show "cpu_online m c'" by (simp add: cpu_online_def)
  qed
  from nz ck kl nc low show ?thesis by (simp add: cpu_online_def)
qed

text \<open>
  With cpu 0 online and some bit of the mask clear, \<open>cpumask_next_zero(0, mask)\<close>
  is the lowest cpu id whose bit is clear.
\<close>

lemma next_zero_lowest:
  assumes on0: "cpu_online m 0" and off: "False \<in> set m"
  shows "cpumask_next_zero 0 m < length m \<and>
         \<not> cpu_online m (cpumask_next_zero 0 m) \<and>
         (\<forall>c < cpumask_next_zero 0 m. cpu_online m c)"
proof -
  note a = next_zero_after [of m]
  from off obtain i where i: "i < length m" "\<not> m ! i"
    by (auto simp: in_set_conv_nth)
  have i0: "0 < i"
  proof (rule ccontr)
    assume "\<not> 0 < i"
    with on0 i show False by (simp add: cpu_online_def)
  qed
  have lt: "cpumask_next_zero 0 m < length m"
  proof (rule ccontr)
    assume "\<not> cpumask_next_zero 0 m < length m"
    with i i0 have "0 < i \<and> i < cpumask_next_zero 0 m" by simp
    with a have "cpu_online m i" by blast
    with i show False by (simp add: cpu_online_def)
  qed
  have "\<forall>c < cpumask_next_zero 0 m. cpu_online m c"
  proof (intro allI impI)
    fix c assume c: "c < cpumask_next_zero 0 m"
    show "cpu_online m c"
    proof (cases "c = 0")
      case True
      with on0 show ?thesis by simp
    next
      case False
      with c a show ?thesis by simp
    qed
  qed
  with lt a show ?thesis by simp
qed

lemma cpu_online_update:
  "c < length m \<Longrightarrow> cpu_online (m[c := True]) c"
  "\<not> cpu_online (m[c := False]) c"
  by (auto simp: cpu_online_def)

lemma cpu_online_0_up: "cpu_online m 0 \<Longrightarrow> cpu_online (m[c := True]) 0"
  by (cases "c = 0") (auto simp: cpu_online_def)

lemma cpu_online_0_down: "cpu_online m 0 \<Longrightarrow> 0 < c \<Longrightarrow> cpu_online (m[c := False]) 0"
  by (auto simp: cpu_online_def)

lemma queue_delayed_work_fields [simp]:
  "cycle (queue_delayed_work d s) = cycle s"
  "cpu_online_mask (queue_delayed_work d s) = cpu_online_mask s"
  "enabled (queue_delayed_work d s) = enabled s"
  "tunables (queue_delayed_work d s) = tunables s"
  by (simp_all add: queue_delayed_work_def split: option.splits)

section \<open>The scan over the online cpus\<close>

text \<open>
  The invariant of the loop, for the cpus visited so far (in ascending order): either
  no cpu other than cpu 0 was visited and \<open>slow_cpu\<close>, \<open>slow_rate\<close> still hold
  their initial values, or \<open>slow_cpu\<close> is a visited cpu other than cpu 0 whose rate
  \<open>slow_rate\<close> is the least among them, and the highest id among those with that rate.
\<close>

lemma scan_slow_inv:
  "sorted xs \<Longrightarrow>
   (let v = fold (scan_body h) xs \<lparr>slow_cpu = 0, slow_rate = UINT_MAX, fast_rate = f0\<rparr> in
     (slow_cpu v = 0 \<and> slow_rate v = UINT_MAX \<and> (\<forall>c\<in>set xs. c = 0)) \<or>
     (0 < slow_cpu v \<and> slow_cpu v \<in> set xs \<and>
      slow_rate v = cpufreq_quick_get h (slow_cpu v) \<and>
      (\<forall>c\<in>set xs. 0 < c \<longrightarrow>
         slow_rate v \<le> cpufreq_quick_get h c \<and>
         (cpufreq_quick_get h c = slow_rate v \<longrightarrow> c \<le> slow_cpu v))))"
proof (induction xs rule: rev_induct)
  case Nil
  then show ?case by simp
next
  case (snoc x xs)
  from snoc.prems have sx: "sorted xs" and le: "\<forall>y\<in>set xs. y \<le> x"
    by (simp_all add: sorted_append)
  define w where "w = fold (scan_body h) xs \<lparr>slow_cpu = 0, slow_rate = UINT_MAX, fast_rate = f0\<rparr>"
  from snoc.IH [OF sx]
  have ih: "(slow_cpu w = 0 \<and> slow_rate w = UINT_MAX \<and> (\<forall>c\<in>set xs. c = 0)) \<or>
     (0 < slow_cpu w \<and> slow_cpu w \<in> set xs \<and>
      slow_rate w = cpufreq_quick_get h (slow_cpu w) \<and>
      (\<forall>c\<in>set xs. 0 < c \<longrightarrow>
         slow_rate w \<le> cpufreq_quick_get h c \<and>
         (cpufreq_quick_get h c = slow_rate w \<longrightarrow> c \<le> slow_cpu w)))"
    by (simp add: Let_def w_def)
  have step: "fold (scan_body h) (xs @ [x]) \<lparr>slow_cpu = 0, slow_rate = UINT_MAX, fast_rate = f0\<rparr>
                = scan_body h x w"
    by (simp add: w_def)
  show ?case
    unfolding step Let_def
  proof (cases "0 < x")
    case False
    with ih le show "(slow_cpu (scan_body h x w) = 0 \<and> slow_rate (scan_body h x w) = UINT_MAX \<and> (\<forall>c\<in>set (xs @ [x]). c = 0)) \<or>
     (0 < slow_cpu (scan_body h x w) \<and> slow_cpu (scan_body h x w) \<in> set (xs @ [x]) \<and>
      slow_rate (scan_body h x w) = cpufreq_quick_get h (slow_cpu (scan_body h x w)) \<and>
      (\<forall>c\<in>set (xs @ [x]). 0 < c \<longrightarrow>
         slow_rate (scan_body h x w) \<le> cpufreq_quick_get h c \<and>
         (cpufreq_quick_get h c = slow_rate (scan_body h x w) \<longrightarrow> c \<le> slow_cpu (scan_body h x w))))"
      by (auto simp: scan_body_def)
  next
    case True
    show "(slow_cpu (scan_body h x w) = 0 \<and> slow_rate (scan_body h x w) = UINT_MAX \<and> (\<forall>c\<in>set (xs @ [x]). c = 0)) \<or>
     (0 < slow_cpu (scan_body h x w) \<and> slow_cpu (scan_body h x w) \<in> set (xs @ [x]) \<and>
      slow_rate (scan_body h x w) = cpufreq_quick_get h (slow_cpu (scan_body h x w)) \<and>
      (\<forall>c\<in>set (xs @ [x]). 0 < c \<longrightarrow>
         slow_rate (scan_body h x w) \<le> cpufreq_quick_get h c \<and>
         (cpufreq_quick_get h c = slow_rate (scan_body h x w) \<longrightarrow> c \<le> slow_cpu (scan_body h x w))))"
    proof (cases "cpufreq_quick_get h x \<le> slow_rate w")
      case le_rate: True
      with True ih le show ?thesis
        by (auto simp: scan_body_def)
    next
      case gt: False
      with le_UINT_MAX [of "cpufreq_quick_get h x"] have "slow_rate w \<noteq> UINT_MAX" by auto
      with True gt ih le show ?thesis
        by (auto simp: scan_body_def Let_def)
    qed
  qed
qed

lemma scan_slow_cases:
  "(slow_cpu (scan h m) = 0 \<and> slow_rate (scan h m) = UINT_MAX \<and>
      (\<forall>c. cpu_online m c \<longrightarrow> c = 0)) \<or>
   (0 < slow_cpu (scan h m) \<and> cpu_online m (slow_cpu (scan h m)) \<and>
    slow_rate (scan h m) = cpufreq_quick_get h (slow_cpu (scan h m)) \<and>
    (\<forall>c. cpu_online m c \<longrightarrow> 0 < c \<longrightarrow>
       slow_rate (scan h m) \<le> cpufreq_quick_get h c \<and>
       (cpufreq_quick_get h c = slow_rate (scan h m) \<longrightarrow> c \<le> slow_cpu (scan h m))))"
  using scan_slow_inv [OF sorted_for_each_cpu, of h m "cpufreq_quick_get h 0"]
  by (simp add: scan_def Let_def set_for_each_cpu)

lemma scan_body_hotplug_ok: "scan_body (h\<lparr>hotplug_ok := ok\<rparr>) = scan_body h"
  by (intro ext) (simp add: scan_body_def)

lemma scan_hotplug_ok: "scan (h\<lparr>hotplug_ok := ok\<rparr>) m = scan h m"
  by (simp add: scan_def scan_body_hotplug_ok)

lemma rates_hotplug_ok:
  "final_slow_rate (h\<lparr>hotplug_ok := ok\<rparr>) m = final_slow_rate h m"
  "up_rate (h\<lparr>hotplug_ok := ok\<rparr>) t = up_rate h t"
  "down_rate (h\<lparr>hotplug_ok := ok\<rparr>) t = down_rate h t"
  by (simp_all add: final_slow_rate_def up_rate_def down_rate_def scan_hotplug_ok)

section \<open>The decision cycle\<close>

text \<open>
  The requests of one cycle, the counter after it and the online mask after it, by the
  branch taken. \<open>cycle s + 1\<close> is the counter after \<open>cycle++\<close>.
\<close>

lemma asmp_work_fn_cmds:
  "snd (asmp_work_fn h s) =
     (if up_rate h (tunables s) < final_slow_rate h (cpu_online_mask s) then
        (if sint (num_online_cpus (cpu_online_mask s)) < sint (max_cpus (tunables s))
            \<and> cycle_up (tunables s) \<le> cycle s + 1
         then [CpuUp (cpumask_next_zero 0 (cpu_online_mask s))] else [])
      else if slow_cpu (scan h (cpu_online_mask s)) \<noteq> 0
            \<and> fast_rate (scan h (cpu_online_mask s)) < down_rate h (tunables s)
            \<and> sint (min_cpus (tunables s)) < sint (num_online_cpus (cpu_online_mask s))
            \<and> cycle_down (tunables s) \<le> cycle s + 1
      then [CpuDown (slow_cpu (scan h (cpu_online_mask s)))] else [])"
  by (simp add: asmp_work_fn_def Let_def cpu_up_def cpu_down_def)

lemma asmp_work_fn_cycle:
  "cycle (fst (asmp_work_fn h s)) = (if snd (asmp_work_fn h s) = [] then cycle s + 1 else 0)"
  by (simp add: asmp_work_fn_def Let_def cpu_up_def cpu_down_def)

lemma asmp_work_fn_mask:
  "cpu_online_mask (fst (asmp_work_fn h s)) =
     (case snd (asmp_work_fn h s) of
        [] \<Rightarrow> cpu_online_mask s
      | CpuUp c # cs \<Rightarrow>
          if hotplug_ok h (CpuUp c) then (cpu_online_mask s)[c := True] else cpu_online_mask s
      | CpuDown c # cs \<Rightarrow>
          if hotplug_ok h (CpuDown c) then (cpu_online_mask s)[c := False] else cpu_online_mask s)"
  by (simp add: asmp_work_fn_def Let_def cpu_up_def cpu_down_def)

lemma asmp_work_fn_cmds_hotplug_ok:
  "snd (asmp_work_fn (h\<lparr>hotplug_ok := ok\<rparr>) s) = snd (asmp_work_fn h s)"
  by (simp only: asmp_work_fn_cmds rates_hotplug_ok scan_hotplug_ok)

subsection \<open>Upshift\<close>

text \<open>
  When a cycle sends a bring-online request, cpu 0 is online and \<open>max_cpus\<close> does
  not exceed the size of the mask, the requested cpu is the lowest-numbered offline cpu.
\<close>

lemma upshift_lowest_offline:
  assumes up: "snd (asmp_work_fn h s) = [CpuUp c]"
    and on0: "cpu_online (cpu_online_mask s) 0"
    and fits: "sint (max_cpus (tunables s)) \<le> int (length (cpu_online_mask s))"
    and small: "length (cpu_online_mask s) < 2 ^ 31"
  shows "c = cpumask_next_zero 0 (cpu_online_mask s) \<and> c < length (cpu_online_mask s) \<and>
         \<not> cpu_online (cpu_online_mask s) c \<and> (\<forall>c' < c. cpu_online (cpu_online_mask s) c')"
proof -
  let ?m = "cpu_online_mask s"
  from up have c: "c = cpumask_next_zero 0 ?m"
    and lt: "sint (num_online_cpus ?m) < sint (max_cpus (tunables s))"
    by (auto simp: asmp_work_fn_cmds split: if_splits)
  from lt fits small have "int (length (filter (\<lambda>b. b) ?m)) < int (length ?m)"
    by (simp add: sint_num_online_cpus)
  then have "False \<in> set ?m" by (simp add: offline_exists)
  with on0 have "cpumask_next_zero 0 ?m < length ?m \<and>
      \<not> cpu_online ?m (cpumask_next_zero 0 ?m) \<and>
      (\<forall>c' < cpumask_next_zero 0 ?m. cpu_online ?m c')"
    by (rule next_zero_lowest)
  with c show ?thesis by simp
qed

text \<open>
  C1 (amended): the cycle sends a bring-online request exactly when
  \<open>slow_rate > up_rate\<close>, the online count is below \<open>max_cpus\<close> (a signed comparison)
  and the incremented counter has reached \<open>cycle_up\<close> (an unsigned comparison). It then
  sends exactly one request, for \<open>cpumask_next_zero(0, cpu_online_mask)\<close>, and the
  counter is 0 afterwards. The requested id is the first one after cpu 0 that is not
  online: every id between cpu 0 and the requested one is online, and a requested id
  inside the mask is an offline cpu other than cpu 0, which is online afterwards if the
  request succeeds.
\<close>

theorem upshift_rule:
  "((\<exists>c. CpuUp c \<in> set (snd (asmp_work_fn h s))) \<longleftrightarrow>
      (up_rate h (tunables s) < final_slow_rate h (cpu_online_mask s) \<and>
       sint (num_online_cpus (cpu_online_mask s)) < sint (max_cpus (tunables s)) \<and>
       cycle_up (tunables s) \<le> cycle s + 1)) \<and>
   ((\<exists>c. CpuUp c \<in> set (snd (asmp_work_fn h s))) \<longrightarrow>
      snd (asmp_work_fn h s) = [CpuUp (cpumask_next_zero 0 (cpu_online_mask s))] \<and>
      cycle (fst (asmp_work_fn h s)) = 0 \<and>
      (\<forall>c. 0 < c \<and> c < cpumask_next_zero 0 (cpu_online_mask s) \<longrightarrow>
         cpu_online (cpu_online_mask s) c) \<and>
      (cpumask_next_zero 0 (cpu_online_mask s) < length (cpu_online_mask s) \<longrightarrow>
         0 < cpumask_next_zero 0 (cpu_online_mask s) \<and>
         \<not> cpu_online (cpu_online_mask s) (cpumask_next_zero 0 (cpu_online_mask s)) \<and>
         (hotplug_ok h (CpuUp (cpumask_next_zero 0 (cpu_online_mask s))) \<longrightarrow>
            cpu_online (cpu_online_mask (fst (asmp_work_fn h s)))
              (cpumask_next_zero 0 (cpu_online_mask s)))))"
proof -
  let ?m = "cpu_online_mask s"
  let ?nz = "cpumask_next_zero 0 ?m"
  let ?up = "\<exists>c. CpuUp c \<in> set (snd (asmp_work_fn h s))"
  let ?fire = "up_rate h (tunables s) < final_slow_rate h ?m \<and>
       sint (num_online_cpus ?m) < sint (max_cpus (tunables s)) \<and>
       cycle_up (tunables s) \<le> cycle s + 1"
  have iff: "?up \<longleftrightarrow> ?fire"
    by (simp add: asmp_work_fn_cmds)
  have cmds: "snd (asmp_work_fn h s) = [CpuUp ?nz]" if ?up
    using that iff by (simp add: asmp_work_fn_cmds)
  have reset: "cycle (fst (asmp_work_fn h s)) = 0" if ?up
    using cmds [OF that] by (simp add: asmp_work_fn_cycle)
  have after: "(\<forall>c. 0 < c \<and> c < ?nz \<longrightarrow> cpu_online ?m c) \<and>
      (?nz < length ?m \<longrightarrow> 0 < ?nz \<and> \<not> cpu_online ?m ?nz)"
    by (rule next_zero_after)
  have online: "cpu_online (cpu_online_mask (fst (asmp_work_fn h s))) ?nz"
    if ?up and "?nz < length ?m" and "hotplug_ok h (CpuUp ?nz)"
    using that cmds [OF that(1)] by (simp add: asmp_work_fn_mask cpu_online_update)
  from iff cmds reset after online show ?thesis by blast
qed

text \<open>
  The rule at work: two of four cpus online at 95% and 96% of the maximum rate,
  \<open>cpufreq_up = 60\<close>, \<open>max_cpus = 4\<close>, \<open>cycle_up = 2\<close>, counter 1 before the cycle:
  cpu 2 is brought online and the counter is 0.
\<close>

theorem upshift_rule_witness:
  "up_rate busy_hw (tunables busy_sys) < final_slow_rate busy_hw (cpu_online_mask busy_sys) \<and>
   sint (num_online_cpus (cpu_online_mask busy_sys)) < sint (max_cpus (tunables busy_sys)) \<and>
   cycle_up (tunables busy_sys) \<le> cycle busy_sys + 1 \<and>
   hotplug_ok busy_hw (CpuUp 2) \<and>
   snd (asmp_work_fn busy_hw busy_sys) = [CpuUp 2] \<and>
   cycle (fst (asmp_work_fn busy_hw busy_sys)) = 0 \<and>
   cpu_online (cpu_online_mask busy_sys) 1 \<and>
   \<not> cpu_online (cpu_online_mask busy_sys) 2 \<and>
   cpu_online (cpu_online_mask (fst (asmp_work_fn busy_hw busy_sys))) 2"
proof -
  let ?m = "cpu_online_mask busy_sys"
  have c1: "up_rate busy_hw (tunables busy_sys) < final_slow_rate busy_hw ?m" by code_simp
  have c2: "sint (num_online_cpus ?m) < sint (max_cpus (tunables busy_sys))" by code_simp
  have c3: "cycle_up (tunables busy_sys) \<le> cycle busy_sys + 1" by code_simp
  have ok: "hotplug_ok busy_hw (CpuUp 2)" by code_simp
  have nz: "cpumask_next_zero 0 ?m = 2" by code_simp
  have len: "cpumask_next_zero 0 ?m < length ?m" by code_simp
  note r = upshift_rule [of busy_hw busy_sys]
  from r c1 c2 c3 have fire: "\<exists>c. CpuUp c \<in> set (snd (asmp_work_fn busy_hw busy_sys))"
    by simp
  with r have a: "snd (asmp_work_fn busy_hw busy_sys) = [CpuUp (cpumask_next_zero 0 ?m)]"
    and b: "cycle (fst (asmp_work_fn busy_hw busy_sys)) = 0"
    and btw: "\<forall>c. 0 < c \<and> c < cpumask_next_zero 0 ?m \<longrightarrow> cpu_online ?m c"
    by simp_all
  from btw have e: "cpu_online ?m 1" by (simp add: nz)
  from r fire len ok [folded nz]
  have c: "\<not> cpu_online ?m (cpumask_next_zero 0 ?m)"
    and d: "cpu_online (cpu_online_mask (fst (asmp_work_fn busy_hw busy_sys)))
              (cpumask_next_zero 0 ?m)"
    by simp_all
  from c1 c2 c3 ok a b c d e show ?thesis by (simp add: nz)
qed

text \<open>
  C1 as stated fails. With all four cpus of the mask online and \<open>max_cpus = 8\<close> the
  upshift fires, but no cpu is offline: the request is for id 4, past the mask, the
  mask stays as it is and the counter is 0. With cpu 0 offline and cpu 1 online the
  upshift fires and requests cpu 2, although cpu 0 is the lowest-numbered offline cpu.
\<close>

theorem upshift_lowest_offline_counterexample:
  "up_rate full_hw (tunables full_sys) < final_slow_rate full_hw (cpu_online_mask full_sys) \<and>
   sint (num_online_cpus (cpu_online_mask full_sys)) < sint (max_cpus (tunables full_sys)) \<and>
   cycle_up (tunables full_sys) \<le> cycle full_sys + 1 \<and>
   cpu_online_mask full_sys = [True, True, True, True] \<and>
   snd (asmp_work_fn full_hw full_sys) = [CpuUp 4] \<and>
   cpu_online_mask (fst (asmp_work_fn full_hw full_sys)) = [True, True, True, True] \<and>
   cycle (fst (asmp_work_fn full_hw full_sys)) = 0 \<and>
   cpu_online_mask headless_sys = [False, True, False, False] \<and>
   \<not> cpu_online (cpu_online_mask headless_sys) 0 \<and>
   snd (asmp_work_fn busy_hw headless_sys) = [CpuUp 2]"
  by code_simp

subsection \<open>Downshift\<close>

text \<open>
  C2 (amended): the cycle sends a take-offline request exactly when the upshift test
  \<open>slow_rate > up_rate\<close> fails and \<open>slow_cpu\<close> is not 0 and
  \<open>fast_rate < down_rate\<close> and the online count is above \<open>min_cpus\<close> and the
  incremented counter has reached \<open>cycle_down\<close>. It then sends exactly one request, for
  \<open>slow_cpu\<close>, the counter is 0 afterwards, and \<open>slow_cpu\<close> is offline afterwards if
  the request succeeds.
\<close>

theorem downshift_rule:
  "((\<exists>c. CpuDown c \<in> set (snd (asmp_work_fn h s))) \<longleftrightarrow>
      (\<not> up_rate h (tunables s) < final_slow_rate h (cpu_online_mask s) \<and>
       slow_cpu (scan h (cpu_online_mask s)) \<noteq> 0 \<and>
       fast_rate (scan h (cpu_online_mask s)) < down_rate h (tunables s) \<and>
       sint (min_cpus (tunables s)) < sint (num_online_cpus (cpu_online_mask s)) \<and>
       cycle_down (tunables s) \<le> cycle s + 1)) \<and>
   ((\<exists>c. CpuDown c \<in> set (snd (asmp_work_fn h s))) \<longrightarrow>
      snd (asmp_work_fn h s) = [CpuDown (slow_cpu (scan h (cpu_online_mask s)))] \<and>
      cycle (fst (asmp_work_fn h s)) = 0 \<and>
      (hotplug_ok h (CpuDown (slow_cpu (scan h (cpu_online_mask s)))) \<longrightarrow>
         \<not> cpu_online (cpu_online_mask (fst (asmp_work_fn h s)))
             (slow_cpu (scan h (cpu_online_mask s)))))"
proof (intro conjI impI)
  let ?m = "cpu_online_mask s"
  let ?fire = "\<not> up_rate h (tunables s) < final_slow_rate h ?m \<and>
       slow_cpu (scan h ?m) \<noteq> 0 \<and>
       fast_rate (scan h ?m) < down_rate h (tunables s) \<and>
       sint (min_cpus (tunables s)) < sint (num_online_cpus ?m) \<and>
       cycle_down (tunables s) \<le> cycle s + 1"
  show iff: "(\<exists>c. CpuDown c \<in> set (snd (asmp_work_fn h s))) \<longleftrightarrow> ?fire"
    by (simp add: asmp_work_fn_cmds)
  {
    assume "\<exists>c. CpuDown c \<in> set (snd (asmp_work_fn h s))"
    with iff have f: ?fire by simp
    then show cmds: "snd (asmp_work_fn h s) = [CpuDown (slow_cpu (scan h ?m))]"
      by (simp add: asmp_work_fn_cmds)
    then show "cycle (fst (asmp_work_fn h s)) = 0"
      by (simp add: asmp_work_fn_cycle)
    {
      assume "hotplug_ok h (CpuDown (slow_cpu (scan h ?m)))"
      with cmds show "\<not> cpu_online (cpu_online_mask (fst (asmp_work_fn h s))) (slow_cpu (scan h ?m))"
        by (simp add: asmp_work_fn_mask cpu_online_update)
    }
  }
qed

text \<open>
  The rule at work: three of four cpus online at 10%, 20% and 30% of the maximum rate,
  default tunables, counter 1 before the cycle: cpu 1 is taken offline.
\<close>

theorem downshift_rule_witness:
  "\<not> up_rate idle_hw (tunables idle_sys) < final_slow_rate idle_hw (cpu_online_mask idle_sys) \<and>
   slow_cpu (scan idle_hw (cpu_online_mask idle_sys)) = 1 \<and>
   fast_rate (scan idle_hw (cpu_online_mask idle_sys)) < down_rate idle_hw (tunables idle_sys) \<and>
   sint (min_cpus (tunables idle_sys)) < sint (num_online_cpus (cpu_online_mask idle_sys)) \<and>
   cycle_down (tunables idle_sys) \<le> cycle idle_sys + 1 \<and>
   hotplug_ok idle_hw (CpuDown 1) \<and>
   snd (asmp_work_fn idle_hw idle_sys) = [CpuDown 1] \<and>
   cycle (fst (asmp_work_fn idle_hw idle_sys)) = 0 \<and>
   \<not> cpu_online (cpu_online_mask (fst (asmp_work_fn idle_hw idle_sys))) 1"
proof -
  let ?m = "cpu_online_mask idle_sys"
  have c0: "\<not> up_rate idle_hw (tunables idle_sys) < final_slow_rate idle_hw ?m" by code_simp
  have c1: "slow_cpu (scan idle_hw ?m) = 1" by code_simp
  have c2: "fast_rate (scan idle_hw ?m) < down_rate idle_hw (tunables idle_sys)" by code_simp
  have c3: "sint (min_cpus (tunables idle_sys)) < sint (num_online_cpus ?m)" by code_simp
  have c4: "cycle_down (tunables idle_sys) \<le> cycle idle_sys + 1" by code_simp
  have ok: "hotplug_ok idle_hw (CpuDown 1)" by code_simp
  note r = downshift_rule [of idle_hw idle_sys]
  from r c0 c1 c2 c3 c4 have fire: "\<exists>c. CpuDown c \<in> set (snd (asmp_work_fn idle_hw idle_sys))"
    by simp
  with r ok c1 have "snd (asmp_work_fn idle_hw idle_sys) = [CpuDown 1] \<and>
      cycle (fst (asmp_work_fn idle_hw idle_sys)) = 0 \<and>
      \<not> cpu_online (cpu_online_mask (fst (asmp_work_fn idle_hw idle_sys))) 1"
    by simp
  with c0 c1 c2 c3 c4 ok show ?thesis by simp
qed

text \<open>
  C2 as stated fails: with \<open>cpufreq_up = 10\<close>, \<open>cpufreq_down = 90\<close> and both cpus
  at 50% of the maximum rate, \<open>slow_cpu\<close> is set, \<open>fast_rate < down_rate\<close>, the
  online count 2 is above \<open>min_cpus = 1\<close> and the counter has reached \<open>cycle_down\<close>,
  yet no request is sent: \<open>slow_rate > up_rate\<close> holds, so the downshift branch is
  never looked at (and the upshift is held back by \<open>max_cpus = 2\<close>).
\<close>

theorem downshift_iff_counterexample:
  "slow_cpu (scan mid_hw (cpu_online_mask capped_sys)) \<noteq> 0 \<and>
   fast_rate (scan mid_hw (cpu_online_mask capped_sys)) < down_rate mid_hw (tunables capped_sys) \<and>
   sint (min_cpus (tunables capped_sys)) < sint (num_online_cpus (cpu_online_mask capped_sys)) \<and>
   cycle_down (tunables capped_sys) \<le> cycle capped_sys + 1 \<and>
   snd (asmp_work_fn mid_hw capped_sys) = []"
  by code_simp

subsection \<open>One request per cycle\<close>

text \<open>
  C3: a cycle sends at most one hotplug request, and never both a bring-online and a
  take-offline request.
\<close>

theorem one_command_per_cycle:
  "length (snd (asmp_work_fn h s)) \<le> 1 \<and>
   \<not> ((\<exists>c. CpuUp c \<in> set (snd (asmp_work_fn h s))) \<and>
      (\<exists>c. CpuDown c \<in> set (snd (asmp_work_fn h s))))"
  by (simp add: asmp_work_fn_cmds)

text \<open>
  A cycle in which the upshift conditions and the downshift conditions all hold
  (\<open>cpufreq_up = 10\<close>, \<open>cpufreq_down = 90\<close>, rates at 50%): one request.
\<close>

theorem one_command_per_cycle_witness:
  "(up_rate mid_hw (tunables roomy_sys) < final_slow_rate mid_hw (cpu_online_mask roomy_sys) \<and>
    sint (num_online_cpus (cpu_online_mask roomy_sys)) < sint (max_cpus (tunables roomy_sys)) \<and>
    cycle_up (tunables roomy_sys) \<le> cycle roomy_sys + 1) \<and>
   (slow_cpu (scan mid_hw (cpu_online_mask roomy_sys)) \<noteq> 0 \<and>
    fast_rate (scan mid_hw (cpu_online_mask roomy_sys)) < down_rate mid_hw (tunables roomy_sys) \<and>
    sint (min_cpus (tunables roomy_sys)) < sint (num_online_cpus (cpu_online_mask roomy_sys)) \<and>
    cycle_down (tunables roomy_sys) \<le> cycle roomy_sys + 1) \<and>
   length (snd (asmp_work_fn mid_hw roomy_sys)) \<le> 1"
proof -
  have "up_rate mid_hw (tunables roomy_sys) < final_slow_rate mid_hw (cpu_online_mask roomy_sys)"
    "sint (num_online_cpus (cpu_online_mask roomy_sys)) < sint (max_cpus (tunables roomy_sys))"
    "cycle_up (tunables roomy_sys) \<le> cycle roomy_sys + 1"
    "slow_cpu (scan mid_hw (cpu_online_mask roomy_sys)) \<noteq> 0"
    "fast_rate (scan mid_hw (cpu_online_mask roomy_sys)) < down_rate mid_hw (tunables roomy_sys)"
    "sint (min_cpus (tunables roomy_sys)) < sint (num_online_cpus (cpu_online_mask roomy_sys))"
    "cycle_down (tunables roomy_sys) \<le> cycle roomy_sys + 1"
    by code_simp+
  with one_command_per_cycle [of mid_hw roomy_sys] show ?thesis by simp
qed

subsection \<open>The counter reset\<close>

text \<open>
  C10: in a cycle that sends a request the counter is 0 afterwards, and neither the
  request nor the reset depends on how the topology answers the request: with any
  other outcome function the cycle sends the same request and the counter is 0.
\<close>

theorem counter_reset_ignores_outcome:
  "snd (asmp_work_fn h s) \<noteq> [] \<Longrightarrow>
     cycle (fst (asmp_work_fn h s)) = 0 \<and>
     snd (asmp_work_fn (h\<lparr>hotplug_ok := ok\<rparr>) s) = snd (asmp_work_fn h s) \<and>
     cycle (fst (asmp_work_fn (h\<lparr>hotplug_ok := ok\<rparr>) s)) = 0"
  by (simp add: asmp_work_fn_cycle asmp_work_fn_cmds_hotplug_ok)

text \<open>
  A cycle whose bring-online request is refused: the online mask is unchanged and the
  counter is 0.
\<close>

theorem counter_reset_ignores_outcome_witness:
  "snd (asmp_work_fn (busy_hw\<lparr>hotplug_ok := \<lambda>c. False\<rparr>) busy_sys) = [CpuUp 2] \<and>
   cpu_online_mask (fst (asmp_work_fn (busy_hw\<lparr>hotplug_ok := \<lambda>c. False\<rparr>) busy_sys))
     = cpu_online_mask busy_sys \<and>
   cycle (fst (asmp_work_fn (busy_hw\<lparr>hotplug_ok := \<lambda>c. False\<rparr>) busy_sys)) = 0"
proof -
  have a: "snd (asmp_work_fn busy_hw busy_sys) = [CpuUp 2]" by code_simp
  then have "snd (asmp_work_fn busy_hw busy_sys) \<noteq> []" by simp
  from counter_reset_ignores_outcome [OF this, of "\<lambda>c. False"] a
  have "snd (asmp_work_fn (busy_hw\<lparr>hotplug_ok := \<lambda>c. False\<rparr>) busy_sys) = [CpuUp 2] \<and>
        cycle (fst (asmp_work_fn (busy_hw\<lparr>hotplug_ok := \<lambda>c. False\<rparr>) busy_sys)) = 0"
    by simp
  moreover have "cpu_online_mask (fst (asmp_work_fn (busy_hw\<lparr>hotplug_ok := \<lambda>c. False\<rparr>) busy_sys))
     = cpu_online_mask busy_sys"
    by code_simp
  ultimately show ?thesis by simp
qed

subsection \<open>fast\_rate\<close>

text \<open>
  C4: \<open>fast_rate\<close> is meant to be the maximum of the rates of the online cpus. The
  loop compares a rate with \<open>fast_rate\<close> only in the \<open>else\<close> branch of
  \<open>rate <= slow_rate\<close>, so a rate that sets a new minimum (the first cpu after cpu 0
  always does) is never counted. With cpu 0 at 100 and cpu 1 at 500, \<open>fast_rate\<close> is
  100, below \<open>down_rate = 400\<close>, and the cycle takes cpu 1 offline while it runs at 500.
\<close>

theorem fast_rate_misses_maximum:
  "cpu_online (cpu_online_mask uneven_sys) 0 \<and> cpu_online (cpu_online_mask uneven_sys) 1 \<and>
   cpufreq_quick_get uneven_hw 0 = 100 \<and> cpufreq_quick_get uneven_hw 1 = 500 \<and>
   fast_rate (scan uneven_hw (cpu_online_mask uneven_sys)) = 100 \<and>
   down_rate uneven_hw (tunables uneven_sys) = 400 \<and>
   snd (asmp_work_fn uneven_hw uneven_sys) = [CpuDown 1]"
  by code_simp

subsection \<open>The tie-break of slow\_cpu\<close>

text \<open>
  C5 (amended): when some cpu other than cpu 0 is online, \<open>slow_cpu\<close> is an online
  cpu other than cpu 0, its rate is \<open>slow_rate\<close>, no online cpu other than cpu 0 has a
  lower rate, and among those with that rate \<open>slow_cpu\<close> has the highest id: the
  \<open><=\<close> comparison lets a later cpu with an equal rate replace an earlier one.
\<close>

theorem slow_cpu_last_of_ties:
  "0 < c \<Longrightarrow> cpu_online m c \<Longrightarrow>
     0 < slow_cpu (scan h m) \<and> cpu_online m (slow_cpu (scan h m)) \<and>
     cpufreq_quick_get h (slow_cpu (scan h m)) = slow_rate (scan h m) \<and>
     (\<forall>c'. 0 < c' \<and> cpu_online m c' \<longrightarrow> slow_rate (scan h m) \<le> cpufreq_quick_get h c') \<and>
     (\<forall>c'. 0 < c' \<and> cpu_online m c' \<and> cpufreq_quick_get h c' = slow_rate (scan h m) \<longrightarrow>
        c' \<le> slow_cpu (scan h m))"
  using scan_slow_cases [of h m] by auto

text \<open>
  Cpus 1 and 2 online at the same, lowest rate: \<open>slow_cpu\<close> is online and not below
  cpu 1.
\<close>

theorem slow_cpu_last_of_ties_witness:
  "0 < (1::nat) \<and> cpu_online [True, True, True] 1 \<and>
   cpufreq_quick_get tie_hw 1 = slow_rate (scan tie_hw [True, True, True]) \<and>
   cpu_online [True, True, True] (slow_cpu (scan tie_hw [True, True, True])) \<and>
   1 \<le> slow_cpu (scan tie_hw [True, True, True])"
proof -
  let ?m = "[True, True, True]"
  have on: "cpu_online ?m 1" by code_simp
  have tie: "cpufreq_quick_get tie_hw 1 = slow_rate (scan tie_hw ?m)" by code_simp
  from slow_cpu_last_of_ties [of 1 ?m tie_hw] on
  have "cpu_online ?m (slow_cpu (scan tie_hw ?m)) \<and>
        (\<forall>c'. 0 < c' \<and> cpu_online ?m c' \<and>
              cpufreq_quick_get tie_hw c' = slow_rate (scan tie_hw ?m) \<longrightarrow>
           c' \<le> slow_cpu (scan tie_hw ?m))"
    by simp
  with on tie show ?thesis by auto
qed

text \<open>
  C5 as stated fails: cpus 1 and 2 are online and tie for the lowest rate, and
  \<open>slow_cpu\<close> is 2, not the lowest-numbered of them.
\<close>

theorem slow_cpu_first_of_ties_counterexample:
  "cpu_online [True, True, True] 1 \<and> cpu_online [True, True, True] 2 \<and>
   cpufreq_quick_get tie_hw 1 = slow_rate (scan tie_hw [True, True, True]) \<and>
   cpufreq_quick_get tie_hw 2 = slow_rate (scan tie_hw [True, True, True]) \<and>
   slow_cpu (scan tie_hw [True, True, True]) = 2 \<and>
   slow_cpu (scan tie_hw [True, True, True]) \<noteq> 1"
  by code_simp

section \<open>Suspend, resume, start and stop\<close>

lemma suspend_loop_no_down0: "CpuDown 0 \<notin> set (snd (suspend_loop h cpus s))"
  by (induction cpus arbitrary: s) (simp_all add: cpu_down_def split_def Let_def)

lemma suspend_loop_keeps0:
  "cpu_online (cpu_online_mask s) 0 \<Longrightarrow>
   cpu_online (cpu_online_mask (fst (suspend_loop h cpus s))) 0"
proof (induction cpus arbitrary: s)
  case Nil
  then show ?case by simp
next
  case (Cons cpu cpus)
  show ?case
  proof (cases "cpu > 0 \<and> cpu_online (cpu_online_mask s) cpu")
    case False
    with Cons show ?thesis by auto
  next
    case True
    from True Cons.prems have "cpu_online (cpu_online_mask (fst (cpu_down h cpu s))) 0"
      by (simp add: cpu_down_def cpu_online_0_down)
    from Cons.IH [OF this] True show ?thesis
      by (simp add: split_def Let_def)
  qed
qed

lemma stop_loop_cycle: "cycle (fst (stop_loop h cpus s)) = cycle s"
  by (induction cpus arbitrary: s) (simp_all add: cpu_up_def split_def Let_def)

subsection \<open>The reference core\<close>

text \<open>
  C6: neither a decision cycle nor the suspend loop sends a take-offline request for
  cpu 0. \<open>slow_cpu\<close> is 0 only when no other cpu is online (0 stands for no candidate,
  and the downshift branch requires \<open>slow_cpu\<close> not to be 0). If cpu 0 is online
  before a cycle or a suspend, it is online after it.
\<close>

theorem reference_core_never_offlined:
  "CpuDown 0 \<notin> set (snd (asmp_work_fn h s)) \<and>
   CpuDown 0 \<notin> set (snd (asmp_suspend h s)) \<and>
   (slow_cpu (scan h (cpu_online_mask s)) = 0 \<longleftrightarrow>
      \<not> (\<exists>c. 0 < c \<and> cpu_online (cpu_online_mask s) c)) \<and>
   (cpu_online (cpu_online_mask s) 0 \<longrightarrow>
      cpu_online (cpu_online_mask (fst (asmp_work_fn h s))) 0 \<and>
      cpu_online (cpu_online_mask (fst (asmp_suspend h s))) 0)"
proof (intro conjI impI)
  show "CpuDown 0 \<notin> set (snd (asmp_work_fn h s))"
    by (auto simp: asmp_work_fn_cmds)
  show "CpuDown 0 \<notin> set (snd (asmp_suspend h s))"
    by (simp add: asmp_suspend_def split_def Let_def suspend_loop_no_down0)
  show "slow_cpu (scan h (cpu_online_mask s)) = 0 \<longleftrightarrow>
      \<not> (\<exists>c. 0 < c \<and> cpu_online (cpu_online_mask s) c)"
    using scan_slow_cases [of h "cpu_online_mask s"] by auto
  {
    assume on0: "cpu_online (cpu_online_mask s) 0"
    then show "cpu_online (cpu_online_mask (fst (asmp_work_fn h s))) 0"
      by (auto simp: asmp_work_fn_mask asmp_work_fn_cmds cpu_online_0_up cpu_online_0_down)
    from on0 show "cpu_online (cpu_online_mask (fst (asmp_suspend h s))) 0"
      by (simp add: asmp_suspend_def split_def Let_def suspend_loop_keeps0 cancel_delayed_work_sync_def)
  }
qed

text \<open>
  A suspend with cpus 0, 1 and 2 online: cpus 1 and 2 are taken offline, cpu 0 stays.
\<close>

theorem reference_core_never_offlined_witness:
  "cpu_online (cpu_online_mask tie_sys) 0 \<and>
   snd (asmp_suspend tie_hw tie_sys) = [CpuDown 1, CpuDown 2] \<and>
   cpu_online (cpu_online_mask (fst (asmp_suspend tie_hw tie_sys))) 0 \<and>
   cpu_online (cpu_online_mask (fst (asmp_work_fn tie_hw tie_sys))) 0"
proof -
  have on0: "cpu_online (cpu_online_mask tie_sys) 0" by code_simp
  have cmds: "snd (asmp_suspend tie_hw tie_sys) = [CpuDown 1, CpuDown 2]" by code_simp
  from reference_core_never_offlined [of tie_hw tie_sys] on0
  have "cpu_online (cpu_online_mask (fst (asmp_work_fn tie_hw tie_sys))) 0 \<and>
        cpu_online (cpu_online_mask (fst (asmp_suspend tie_hw tie_sys))) 0"
    by blast
  with on0 cmds show ?thesis by simp
qed

subsection \<open>Resume\<close>

text \<open>
  C7: the loop of \<open>asmp_resume\<close> tests \<open>num_cpus >= tunables.max_cpus\<close> in
  every iteration, but \<open>num_cpus\<close> is read once before the loop and never updated.
  With one of four present cpus online and \<open>max_cpus = 2\<close> the loop brings cpus 1, 2
  and 3 online: four cpus are online afterwards.
\<close>

theorem resume_overshoots_max_cpus:
  "enabled suspended_sys = 1 \<and> scroff_single_core (tunables suspended_sys) = 1 \<and>
   max_cpus (tunables suspended_sys) = 2 \<and>
   num_online_cpus (cpu_online_mask suspended_sys) = 1 \<and>
   snd (asmp_resume suspended_hw suspended_sys) = [CpuUp 1, CpuUp 2, CpuUp 3] \<and>
   num_online_cpus (cpu_online_mask (fst (asmp_resume suspended_hw suspended_sys))) = 4"
  by code_simp

subsection \<open>Start and the cycle counter\<close>

text \<open>
  C8 (amended): \<open>asmp_hotplug_start\<close> and \<open>store_enabled\<close> leave \<open>cycle\<close> as it
  is. The counter is 0 after module load (its static initialiser); a later start finds
  the value the previous stop left.
\<close>

theorem start_keeps_cycle:
  "cycle (snd (asmp_hotplug_start h s)) = cycle s \<and>
   cycle (fst (snd (store_enabled h scanned count s))) = cycle s \<and>
   cycle (sys_init n online present) = 0"
proof (intro conjI)
  show a: "\<And>s. cycle (snd (asmp_hotplug_start h s)) = cycle s"
    by (simp add: asmp_hotplug_start_def Let_def INIT_DELAYED_WORK_def)
  have b: "\<And>s. cycle (fst (asmp_hotplug_stop h s)) = cycle s"
    by (simp add: asmp_hotplug_stop_def stop_loop_cycle cancel_delayed_work_sync_def)
  show "cycle (fst (snd (store_enabled h scanned count s))) = cycle s"
    by (simp add: store_enabled_def Let_def split_def a b split: option.splits)
  show "cycle (sys_init n online present) = 0"
    by (simp add: sys_init_def)
qed

text \<open>The second start of the restart scenario leaves the counter as the stop left it.\<close>

theorem start_keeps_cycle_witness:
  "enabled restart_stopped = 0 \<and> enabled restart_started = 1 \<and>
   cycle restart_started = cycle restart_stopped"
proof -
  have "enabled restart_stopped = 0" "enabled restart_started = 1" by code_simp+
  with start_keeps_cycle [of busy_hw restart_stopped "Some 1" 2]
  show ?thesis by (simp add: restart_started_def)
qed

text \<open>
  C8 as stated fails: start after load, one cycle that sends no request, stop, start
  again. The second start is accepted (\<open>store_enabled\<close> returns \<open>count\<close>), the first
  cycle is scheduled after \<open>HOTPLUG_INIT_DELAY\<close>, and \<open>cycle\<close> is 1.
\<close>

theorem start_resets_cycle_counterexample:
  "enabled restart_stopped = 0 \<and>
   fst (store_enabled busy_hw (Some 1) 2 restart_stopped) = 2 \<and>
   restart_started = fst (snd (store_enabled busy_hw (Some 1) 2 restart_stopped)) \<and>
   enabled restart_started = 1 \<and> asmp_work restart_started = Some HOTPLUG_INIT_DELAY \<and>
   cycle restart_stopped = 1 \<and> cycle restart_started = 1 \<and> cycle restart_started \<noteq> 0"
  by code_simp

subsection \<open>A failed start\<close>

text \<open>
  C9: \<open>store_enabled\<close> sets \<open>enabled\<close> before it calls \<open>asmp_hotplug_start\<close>
  and drops its return value. When \<open>alloc_workqueue\<close> fails, or when
  \<open>state_register_client\<close> fails, \<open>asmp_hotplug_start\<close> returns the error, but
  \<open>store_enabled\<close> returns \<open>count\<close> and \<open>enabled\<close> stays 1. \<open>asmp_probe\<close>, the
  other caller of \<open>asmp_hotplug_start\<close>, returns the error.
\<close>

theorem failed_start_keeps_enabled:
  "enabled loaded_sys = 0 \<and>
   fst (asmp_hotplug_start no_workqueue_hw (loaded_sys\<lparr>enabled := 1\<rparr>)) = - EFAULT \<and>
   fst (store_enabled no_workqueue_hw (Some 1) 2 loaded_sys) = 2 \<and>
   enabled (fst (snd (store_enabled no_workqueue_hw (Some 1) 2 loaded_sys))) = 1 \<and>
   asmp_wq (fst (snd (store_enabled no_workqueue_hw (Some 1) 2 loaded_sys))) = False \<and>
   fst (asmp_hotplug_start no_notifier_hw (loaded_sys\<lparr>enabled := 1\<rparr>)) = - 16 \<and>
   fst (store_enabled no_notifier_hw (Some 1) 2 loaded_sys) = 2 \<and>
   enabled (fst (snd (store_enabled no_notifier_hw (Some 1) 2 loaded_sys))) = 1 \<and>
   fst (asmp_probe no_workqueue_hw (loaded_sys\<lparr>enabled := 1\<rparr>)) = - EFAULT \<and>
   fst (asmp_probe no_notifier_hw (loaded_sys\<lparr>enabled := 1\<rparr>)) = - 16"
  by code_simp

end
